theory Spec2Isabelle
  imports Main
begin

section \<open>Strings and regular expressions\<close>

text \<open>
  A Python \<open>str\<close> is modelled as a HOL \<open>string\<close>, one \<open>char\<close> per code point (code points
  below 256). \<open>len\<close> is \<open>length\<close>, and a string is falsy exactly when it is \<open>[]\<close>.

  The email pattern uses only concatenation, character classes, \<open>*\<close>, \<open>+\<close> and \<open>{2,}\<close>.
  For such a pattern \<open>re.fullmatch\<close> succeeds exactly when the whole string belongs to the
  pattern's language; the matcher below decides that by derivatives.
\<close>

datatype rx =
    Eps
  | Cls "(char \<times> char) list"
  | Cat rx rx
  | Alt rx rx
  | Star rx

text \<open>A character class is a list of inclusive ranges; a single character \<open>c\<close> is \<open>(c, c)\<close>.\<close>

definition in_range :: "char \<times> char \<Rightarrow> char \<Rightarrow> bool" where
  "in_range r c = ((of_char (fst r) :: nat) \<le> of_char c \<and> (of_char c :: nat) \<le> of_char (snd r))"

definition in_class :: "(char \<times> char) list \<Rightarrow> char \<Rightarrow> bool" where
  "in_class rs c = list_ex (\<lambda>r. in_range r c) rs"

definition Lit :: "char \<Rightarrow> rx" where
  "Lit c = Cls [(c, c)]"

definition Plus :: "rx \<Rightarrow> rx" where
  "Plus r = Cat r (Star r)"

fun AtLeast :: "nat \<Rightarrow> rx \<Rightarrow> rx" where
  "AtLeast 0 r = Star r"
| "AtLeast (Suc n) r = Cat r (AtLeast n r)"

fun nullable :: "rx \<Rightarrow> bool" where
  "nullable Eps = True"
| "nullable (Cls rs) = False"
| "nullable (Cat r s) = (nullable r \<and> nullable s)"
| "nullable (Alt r s) = (nullable r \<or> nullable s)"
| "nullable (Star r) = True"

fun deriv :: "char \<Rightarrow> rx \<Rightarrow> rx" where
  "deriv c Eps = Cls []"
| "deriv c (Cls rs) = (if in_class rs c then Eps else Cls [])"
| "deriv c (Cat r s) =
     (if nullable r then Alt (Cat (deriv c r) s) (deriv c s) else Cat (deriv c r) s)"
| "deriv c (Alt r s) = Alt (deriv c r) (deriv c s)"
| "deriv c (Star r) = Cat (deriv c r) (Star r)"

fun fullmatch :: "rx \<Rightarrow> string \<Rightarrow> bool" where
  "fullmatch r [] = nullable r"
| "fullmatch r (c # cs) = fullmatch (deriv c r) cs"

text \<open>
  The language of a pattern, as a relation between pattern and string, to state what
  \<open>fullmatch\<close> decides.
\<close>

inductive matches :: "rx \<Rightarrow> string \<Rightarrow> bool" where
  m_eps: "matches Eps []"
| m_cls: "in_class rs c \<Longrightarrow> matches (Cls rs) [c]"
| m_cat: "matches r u \<Longrightarrow> matches s v \<Longrightarrow> matches (Cat r s) (u @ v)"
| m_altl: "matches r u \<Longrightarrow> matches (Alt r s) u"
| m_altr: "matches s u \<Longrightarrow> matches (Alt r s) u"
| m_star0: "matches (Star r) []"
| m_star: "matches r u \<Longrightarrow> matches (Star r) v \<Longrightarrow> matches (Star r) (u @ v)"

text \<open>
  \<^verbatim>\<open>([A-Za-z0-9]+[.-_])*[A-Za-z0-9]+@[A-Za-z0-9-]+(\.[A-Z|a-z]{2,})+\<close>

  Inside a class, \<open>.-_\<close> is the range from \<open>.\<close> to \<open>_\<close>, and \<open>A-Z|a-z\<close> is the two letter
  ranges and the character \<open>|\<close>. A trailing \<open>-\<close> is the character itself. \<open>LoginVal\<close> and
  \<open>RegisterVal\<close> compile this same pattern.
\<close>

definition alnum :: "(char \<times> char) list" where
  "alnum = [(CHR ''A'', CHR ''Z''), (CHR ''a'', CHR ''z''), (CHR ''0'', CHR ''9'')]"

definition email_regex :: rx where
  "email_regex =
     Cat (Star (Cat (Plus (Cls alnum)) (Cls [(CHR ''.'', CHR ''_'')])))
    (Cat (Plus (Cls alnum))
    (Cat (Lit CHR ''@'')
    (Cat (Plus (Cls (alnum @ [(CHR ''-'', CHR ''-'')])))
         (Plus (Cat (Lit CHR ''.'')
                    (AtLeast 2 (Cls [(CHR ''A'', CHR ''Z''), (CHR ''|'', CHR ''|''),
                                     (CHR ''a'', CHR ''z'')])))))))"

section \<open>Data model\<close>

text \<open>
  The candidate user handed to \<open>RegisterVal\<close> (entity \<open>User\<close>); all fields are strings.
\<close>

record User =
  name :: string
  username :: string
  email :: string
  phone :: string
  pass1 :: string
  pass2 :: string
  uid :: string

text \<open>
  A stored document is a Python dict from field names to strings, kept as an association
  list and read with \<open>map_of\<close>. A store filter is a dict with one key, kept as a pair.
\<close>

type_synonym doc = "(string \<times> string) list"
type_synonym query = "string \<times> string"

text \<open>
  Exceptions. \<open>AppException\<close> is the application's typed error and wraps the exception it
  was raised from; everything the collaborators raise is an \<open>Exception\<close> of some text, and
  a dict read at a missing key is a \<open>KeyError\<close>.
\<close>

datatype exn = Exception string | KeyError string | AppException exn

text \<open>
  The two collaborators are parameters of the model. \<open>UserDB\<close> is the data-access object
  over a store of type \<open>'s\<close>: \<open>fetch_user\<close> reads the store and returns a document or
  \<open>None\<close>, \<open>add_user\<close> returns the store with the document inserted, and either may raise.
  \<open>CryptContext\<close> is the password hasher.
\<close>

record 's UserDB =
  fetch_user :: "'s \<Rightarrow> query \<Rightarrow> exn + doc option"
  add_user :: "'s \<Rightarrow> doc \<Rightarrow> exn + 's"

record CryptContext =
  hash :: "string \<Rightarrow> exn + string"
  verify :: "string \<Rightarrow> string \<Rightarrow> exn + bool"

text \<open>
  The world an operation runs in: the store, and the calls made on the data-access
  object so far, oldest first.
\<close>

datatype call = Fetch query | Insert doc

record 's world =
  db :: 's
  calls :: "call list"

text \<open>
  A computation returns a value or raises, and leaves a world behind; \<open>and_then\<close> is
  sequencing, where an exception skips the rest.
\<close>

definition ret :: "'a \<Rightarrow> 'w \<Rightarrow> (exn + 'a) \<times> 'w" where
  "ret x w = (Inr x, w)"

definition and_then ::
  "('w \<Rightarrow> (exn + 'a) \<times> 'w) \<Rightarrow> ('a \<Rightarrow> 'w \<Rightarrow> (exn + 'b) \<times> 'w) \<Rightarrow> 'w \<Rightarrow> (exn + 'b) \<times> 'w" where
  "and_then m f w = (case m w of (Inl e, w') \<Rightarrow> (Inl e, w') | (Inr x, w') \<Rightarrow> f x w')"

definition lift :: "exn + 'a \<Rightarrow> 'w \<Rightarrow> (exn + 'a) \<times> 'w" where
  "lift r w = (r, w)"

definition fetch_call :: "'s UserDB \<Rightarrow> query \<Rightarrow> 's world \<Rightarrow> (exn + doc option) \<times> 's world" where
  "fetch_call D q w = (fetch_user D (db w) q, w\<lparr>calls := calls w @ [Fetch q]\<rparr>)"

definition insert_call :: "'s UserDB \<Rightarrow> doc \<Rightarrow> 's world \<Rightarrow> (exn + unit) \<times> 's world" where
  "insert_call D d w =
     (case add_user D (db w) d of
        Inl e \<Rightarrow> (Inl e, w\<lparr>calls := calls w @ [Insert d]\<rparr>)
      | Inr s' \<Rightarrow> (Inr (), w\<lparr>db := s', calls := calls w @ [Insert d]\<rparr>))"

text \<open>Truthiness of what \<open>fetch_user\<close> returns: \<open>None\<close> and the empty dict are falsy.\<close>

definition truthy :: "doc option \<Rightarrow> bool" where
  "truthy r = (case r of None \<Rightarrow> False | Some d \<Rightarrow> d \<noteq> [])"

text \<open>The dicts the operations return: \<open>msg\<close> is absent, one string, or a list of strings.\<close>

datatype message = Text string | Messages "string list"

record result =
  status :: bool
  msg :: "message option"

text \<open>\<open>auth_user\<close> returns \<open>False\<close> or the user document.\<close>

datatype auth_result = AuthFalse | AuthUser doc

section \<open>LoginVal\<close>

definition LoginVal_is_email_valid :: "string \<Rightarrow> bool" where
  "LoginVal_is_email_valid em = fullmatch email_regex em"

definition LoginVal_validate :: "string \<Rightarrow> string \<Rightarrow> string list" where
  "LoginVal_validate em pwd =
     (let errors = [];
          errors = (if em = [] then errors @ [''Email is required''] else errors);
          errors = (if pwd = [] then errors @ [''Password is required''] else errors);
          errors = (if \<not> LoginVal_is_email_valid em then errors @ [''Invalid Email'']
                    else errors)
      in errors)"

definition verify_pwd :: "CryptContext \<Rightarrow> string \<Rightarrow> string \<Rightarrow> exn + bool" where
  "verify_pwd H plain_pwd hashed_pwd = verify H plain_pwd hashed_pwd"

definition validate_login :: "string \<Rightarrow> string \<Rightarrow> result" where
  "validate_login em pwd =
     (let errors = LoginVal_validate em pwd
      in if errors \<noteq> [] then \<lparr>status = False, msg = Some (Messages errors)\<rparr>
         else \<lparr>status = True, msg = None\<rparr>)"

text \<open>
  The body of the \<open>try\<close> block of \<open>auth_user\<close>. The data-access object built there by
  \<open>UserDB()\<close> is the parameter \<open>D\<close>; the calls of \<open>logging.info\<close> are left out, here and in
  \<open>save_user\<close>. \<open>not user\<close> holds for \<open>None\<close> and for an empty document, and
  \<open>user["password"]\<close> raises \<open>KeyError\<close> when the document has no such field.
\<close>

definition auth_user_body ::
  "'s UserDB \<Rightarrow> CryptContext \<Rightarrow> string \<Rightarrow> string \<Rightarrow> 's world \<Rightarrow> (exn + auth_result) \<times> 's world" where
  "auth_user_body D H em pwd =
     (let login_status = validate_login em pwd
      in if status login_status then
           and_then (fetch_call D (''email'', em)) (\<lambda>user.
             case user of
               None \<Rightarrow> ret AuthFalse
             | Some ud \<Rightarrow>
                 if \<not> truthy user then ret AuthFalse
                 else (case map_of ud ''password'' of
                         None \<Rightarrow> lift (Inl (KeyError ''password''))
                       | Some hashed \<Rightarrow>
                           and_then (lift (verify_pwd H pwd hashed)) (\<lambda>ok.
                             if \<not> ok then ret AuthFalse else ret (AuthUser ud))))
         else ret AuthFalse)"

text \<open>\<open>except Exception as e: raise AppException(e, sys) from e\<close>\<close>

definition auth_user ::
  "'s UserDB \<Rightarrow> CryptContext \<Rightarrow> string \<Rightarrow> string \<Rightarrow> 's world \<Rightarrow> (exn + auth_result) \<times> 's world" where
  "auth_user D H em pwd w =
     (case auth_user_body D H em pwd w of
        (Inl e, w') \<Rightarrow> (Inl (AppException e), w')
      | (Inr r, w') \<Rightarrow> (Inr r, w'))"

section \<open>RegisterVal\<close>

definition RegisterVal_is_email_valid :: "User \<Rightarrow> bool" where
  "RegisterVal_is_email_valid u = fullmatch email_regex (email u)"

definition is_pwd_valid :: "User \<Rightarrow> bool" where
  "is_pwd_valid u = (8 \<le> length (pass1 u) \<and> length (pass1 u) \<le> 16)"

definition is_pwd_match :: "User \<Rightarrow> bool" where
  "is_pwd_match u = (pass1 u = pass2 u)"

text \<open>
  The list handed to \<open>any\<close> is built first, so the three fetches all run, in this order.
\<close>

definition is_user_exists :: "'s UserDB \<Rightarrow> User \<Rightarrow> 's world \<Rightarrow> (exn + bool) \<times> 's world" where
  "is_user_exists D u =
     and_then (fetch_call D (''username'', username u)) (\<lambda>r1.
     and_then (fetch_call D (''email'', email u)) (\<lambda>r2.
     and_then (fetch_call D (''UUID'', uid u)) (\<lambda>r3.
       let user_exists = list_ex truthy [r1, r2, r3]
       in ret (\<not> user_exists))))"

definition RegisterVal_validate ::
  "'s UserDB \<Rightarrow> User \<Rightarrow> 's world \<Rightarrow> (exn + string list) \<times> 's world" where
  "RegisterVal_validate D u =
     (let errors = [];
          errors = (if name u = [] then errors @ [''Name is required''] else errors);
          errors = (if username u = [] then errors @ [''Username is required''] else errors);
          errors = (if email u = [] then errors @ [''Email is required''] else errors);
          errors = (if phone u = [] then errors @ [''Phone Number is required''] else errors);
          errors = (if pass1 u = [] then errors @ [''Password is required''] else errors);
          errors = (if pass2 u = [] then errors @ [''Confirm Password is required'']
                    else errors);
          errors = (if \<not> RegisterVal_is_email_valid u then errors @ [''Invalid Email'']
                    else errors);
          errors = (if \<not> is_pwd_valid u
                    then errors @ [''Password must be 8-16 characters long'']
                    else errors);
          errors = (if \<not> is_pwd_match u then errors @ [''Passwords do not match'']
                    else errors)
      in and_then (is_user_exists D u) (\<lambda>ok.
           ret (if \<not> ok then errors @ [''User already exists''] else errors)))"

definition hash_pwd :: "CryptContext \<Rightarrow> string \<Rightarrow> exn + string" where
  "hash_pwd H pwd = hash H pwd"

definition validate_reg :: "'s UserDB \<Rightarrow> User \<Rightarrow> 's world \<Rightarrow> (exn + result) \<times> 's world" where
  "validate_reg D u =
     and_then (RegisterVal_validate D u) (\<lambda>errors.
       if errors \<noteq> [] then ret \<lparr>status = False, msg = Some (Messages errors)\<rparr>
       else ret \<lparr>status = True, msg = None\<rparr>)"

text \<open>
  \<open>save_user\<close>. Its handler is \<open>except Exception as e: raise e\<close>, which raises the
  exception it caught, so the \<open>try\<close> block is the whole of it.
\<close>

definition save_user ::
  "'s UserDB \<Rightarrow> CryptContext \<Rightarrow> User \<Rightarrow> 's world \<Rightarrow> (exn + result) \<times> 's world" where
  "save_user D H u =
     and_then (validate_reg D u) (\<lambda>r.
       if status r then
         and_then (lift (hash_pwd H (pass1 u))) (\<lambda>hashed_pwd.
           let user_data = [(''Name'', name u), (''username'', username u),
                            (''password'', hashed_pwd), (''email'', email u),
                            (''ph_no'', phone u), (''UUID'', uid u)]
           in and_then (insert_call D user_data) (\<lambda>_.
                ret \<lparr>status = True, msg = Some (Text ''User registered successfully'')\<rparr>))
       else
         and_then (RegisterVal_validate D u) (\<lambda>errors.
           ret \<lparr>status = False, msg = Some (Messages errors)\<rparr>))"

section \<open>Notions used to state the properties\<close>

text \<open>The three uniqueness queries of \<open>is_user_exists\<close>, as calls, in the order issued.\<close>

definition store_queries :: "User \<Rightarrow> call list" where
  "store_queries u =
     [Fetch (''username'', username u), Fetch (''email'', email u), Fetch (''UUID'', uid u)]"

text \<open>The documents handed to \<open>add_user\<close> in a sequence of calls.\<close>

definition inserts :: "call list \<Rightarrow> doc list" where
  "inserts cs = concat (map (\<lambda>c. case c of Fetch q \<Rightarrow> [] | Insert d \<Rightarrow> [d]) cs)"


text \<open>
  The checks of registration in the order the specification lists them, each with the
  message of its failure; \<open>unique\<close> is the outcome of the uniqueness check. The messages
  of a validation are those of the failed checks, in that order.
\<close>

definition checks_in_order :: "User \<Rightarrow> bool \<Rightarrow> (bool \<times> string) list" where
  "checks_in_order u unique =
     [(name u \<noteq> [], ''Name is required''),
      (username u \<noteq> [], ''Username is required''),
      (email u \<noteq> [], ''Email is required''),
      (phone u \<noteq> [], ''Phone Number is required''),
      (pass1 u \<noteq> [], ''Password is required''),
      (pass2 u \<noteq> [], ''Confirm Password is required''),
      (RegisterVal_is_email_valid u, ''Invalid Email''),
      (is_pwd_valid u, ''Password must be 8-16 characters long''),
      (is_pwd_match u, ''Passwords do not match''),
      (unique, ''User already exists'')]"

definition failed :: "(bool \<times> string) list \<Rightarrow> string list" where
  "failed cs = concat (map (\<lambda>c. if fst c then [] else [snd c]) cs)"

text \<open>
  Modelled from the spec: the class \<open>UserDB\<close> (\<open>auth_logic.data_access.user_data\<close>) is not
  among the sources. The specification gives \<open>fetch(filter) -> Optional<UserRecord>\<close> and
  \<open>insert(record) -> void\<close>: the store is a sequence of documents, \<open>fetch\<close> returns the
  first document whose field has the value asked for, and \<open>insert\<close> adds the document at
  the end. Neither raises.
\<close>

definition satisfies :: "query \<Rightarrow> doc \<Rightarrow> bool" where
  "satisfies q d = (map_of d (fst q) = Some (snd q))"

definition list_db :: "(doc list) UserDB" where
  "list_db = \<lparr>fetch_user = (\<lambda>s q. Inr (find (satisfies q) s)),
              add_user = (\<lambda>s d. Inr (s @ [d]))\<rparr>"

text \<open>A store that is out of reach: every call on it raises.\<close>

definition failing_db :: "unit UserDB" where
  "failing_db = \<lparr>fetch_user = (\<lambda>s q. Inl (Exception ''store unavailable'')),
                 add_user = (\<lambda>s d. Inl (Exception ''store unavailable''))\<rparr>"

text \<open>
  A hasher to run the operations with: the digest is a fixed 20-character prefix followed
  by the password, and \<open>verify\<close> compares digests. A second one whose \<open>hash\<close> raises.
\<close>

definition toy_ctx :: CryptContext where
  "toy_ctx = \<lparr>hash = (\<lambda>p. Inr (''$2b$12$saltsaltsalt$'' @ p)),
              verify = (\<lambda>p h. Inr (h = ''$2b$12$saltsaltsalt$'' @ p))\<rparr>"

definition failing_ctx :: CryptContext where
  "failing_ctx = \<lparr>hash = (\<lambda>p. Inl (Exception ''hash failed'')),
                  verify = (\<lambda>p h. Inl (Exception ''hash failed''))\<rparr>"



text \<open>The users of the specification's scenarios, and the empty world.\<close>

definition alice :: User where
  "alice = \<lparr>name = ''A'', username = ''alice'', email = ''a@b.com'', phone = ''123'',
            pass1 = ''password1'', pass2 = ''password1'', uid = ''u-1''\<rparr>"

definition alice_doc :: doc where
  "alice_doc = [(''Name'', ''A''), (''username'', ''alice''),
                (''password'', ''$2b$12$saltsaltsalt$password1''), (''email'', ''a@b.com''),
                (''ph_no'', ''123''), (''UUID'', ''u-1'')]"

definition world0 :: "(doc list) world" where
  "world0 = \<lparr>db = [], calls = []\<rparr>"

definition world1 :: "(doc list) world" where
  "world1 = \<lparr>db = [alice_doc], calls = []\<rparr>"

section \<open>The matcher decides the language\<close>

inductive_simps matches_Eps: "matches Eps w"
inductive_simps matches_Cls: "matches (Cls rs) w"
inductive_simps matches_Cat: "matches (Cat r s) w"
inductive_simps matches_Alt: "matches (Alt r s) w"

lemma nullable_matches: "nullable r = matches r []"
  by (induction r) (auto simp: matches_Eps matches_Cls matches_Cat matches_Alt intro: m_star0)

lemma star_step:
  assumes "matches r (c # u)" and "matches (Star r) v"
  shows "matches (Star r) (c # u @ v)"
  using m_star[OF assms] by simp

lemma star_head:
  "matches x y \<Longrightarrow> x = Star r \<Longrightarrow> y = c # w \<Longrightarrow>
     \<exists>u v. w = u @ v \<and> matches r (c # u) \<and> matches (Star r) v"
proof (induction arbitrary: w rule: matches.induct)
  case (m_star r' u v)
  show ?case
  proof (cases u)
    case Nil
    with m_star show ?thesis by simp
  next
    case (Cons a u')
    with m_star show ?thesis by auto
  qed
qed simp_all

lemma matches_Star_Cons:
  "matches (Star r) (c # w) = (\<exists>u v. w = u @ v \<and> matches r (c # u) \<and> matches (Star r) v)"
  using star_head[of "Star r" "c # w" r c w] star_step[of r c] by auto

lemma deriv_matches: "matches (deriv c r) w = matches r (c # w)"
proof (induction r arbitrary: w)
  case Eps
  show ?case by (simp add: matches_Eps matches_Cls in_class_def)
next
  case (Cls rs)
  show ?case by (auto simp: matches_Eps matches_Cls in_class_def)
next
  case (Cat r s)
  then show ?case
    by (auto simp: matches_Cat matches_Alt nullable_matches Cons_eq_append_conv) 
next
  case (Alt r s)
  then show ?case by (simp add: matches_Alt)
next
  case (Star r)
  then show ?case by (simp add: matches_Cat matches_Star_Cons)
qed

lemma fullmatch_matches: "fullmatch r w = matches r w"
  by (induction w arbitrary: r) (simp_all add: nullable_matches deriv_matches)

section \<open>Running the operations\<close>

lemmas m_defs = and_then_def ret_def lift_def fetch_call_def insert_call_def

lemmas run_defs = save_user_def validate_reg_def RegisterVal_validate_def is_user_exists_def
  and_then_def ret_def lift_def fetch_call_def insert_call_def hash_pwd_def
  RegisterVal_is_email_valid_def is_pwd_valid_def is_pwd_match_def truthy_def store_queries_def
  list_db_def toy_ctx_def alice_def alice_doc_def world0_def world1_def satisfies_def inserts_def
  Let_def

lemma alice_email: "fullmatch email_regex ''a@b.com''"
  by code_simp

lemma is_user_exists_Inr:
  assumes "is_user_exists D u w = (Inr ok, w1)"
  shows "w1 = w\<lparr>calls := calls w @ store_queries u\<rparr>"
    and "\<exists>r1 r2 r3. fetch_user D (db w) (''username'', username u) = Inr r1
            \<and> fetch_user D (db w) (''email'', email u) = Inr r2
            \<and> fetch_user D (db w) (''UUID'', uid u) = Inr r3
            \<and> ok = (\<not> (truthy r1 \<or> truthy r2 \<or> truthy r3))"
  using assms
  by (auto simp: is_user_exists_def m_defs store_queries_def Let_def split: sum.splits)

lemma is_user_exists_fetches:
  assumes "fetch_user D (db w) (''username'', username u) = Inr r1"
      and "fetch_user D (db w) (''email'', email u) = Inr r2"
      and "fetch_user D (db w) (''UUID'', uid u) = Inr r3"
  shows "is_user_exists D u w =
           (Inr (\<not> (truthy r1 \<or> truthy r2 \<or> truthy r3)), w\<lparr>calls := calls w @ store_queries u\<rparr>)"
  using assms
  by (simp add: is_user_exists_def m_defs store_queries_def Let_def)

lemma is_user_exists_again:
  assumes "is_user_exists D u w = (Inr ok, w1)" and "db w2 = db w"
  shows "is_user_exists D u w2 = (Inr ok, w2\<lparr>calls := calls w2 @ store_queries u\<rparr>)"
proof -
  from is_user_exists_Inr(2)[OF assms(1)] obtain r1 r2 r3 where
    "fetch_user D (db w2) (''username'', username u) = Inr r1"
    "fetch_user D (db w2) (''email'', email u) = Inr r2"
    "fetch_user D (db w2) (''UUID'', uid u) = Inr r3"
    "ok = (\<not> (truthy r1 \<or> truthy r2 \<or> truthy r3))"
    using assms(2) by auto
  then show ?thesis by (simp add: is_user_exists_fetches)
qed

lemma inserts_append: "inserts (xs @ ys) = inserts xs @ inserts ys"
  by (simp add: inserts_def)

lemma inserts_store_queries: "inserts (store_queries u) = []"
  by (simp add: inserts_def store_queries_def)

lemma is_user_exists_frame:
  "db (snd (is_user_exists D u w)) = db w \<and>
   inserts (calls (snd (is_user_exists D u w))) = inserts (calls w)"
  by (simp add: is_user_exists_def m_defs Let_def inserts_def split: sum.splits)

lemma failed_append: "failed (xs @ ys) = failed xs @ failed ys"
  by (simp add: failed_def)

lemma add_if: "(if c then errs @ [m] else errs) = errs @ failed [(\<not> c, m)]"
  by (simp add: failed_def)

lemma in_failed: "(m \<in> set (failed cs)) = ((False, m) \<in> set cs)"
  by (induction cs) (auto simp: failed_def)

lemma validate_run:
  "RegisterVal_validate D u w =
     (case is_user_exists D u w of
        (Inl e, w1) \<Rightarrow> (Inl e, w1)
      | (Inr ok, w1) \<Rightarrow> (Inr (failed (checks_in_order u ok)), w1))"
proof -
  have last_check: "checks_in_order u ok =
      butlast (checks_in_order u ok) @ [(ok, ''User already exists'')]" for ok
    by (simp add: checks_in_order_def)
  show ?thesis
    apply (simp only: RegisterVal_validate_def Let_def add_if and_then_def ret_def)
    apply (simp only: failed_append[symmetric] append_Nil append_Cons not_not)
    apply (subst last_check)
    apply (simp add: checks_in_order_def failed_append split: prod.splits sum.splits)
    done
qed

lemma validate_Inr:
  assumes "RegisterVal_validate D u w = (Inr errs, w1)"
  shows "\<exists>ok. is_user_exists D u w = (Inr ok, w1) \<and> errs = failed (checks_in_order u ok)"
  using assms by (auto simp: validate_run split: prod.splits sum.splits)

lemma validate_frame:
  "db (snd (RegisterVal_validate D u w)) = db w \<and>
   inserts (calls (snd (RegisterVal_validate D u w))) = inserts (calls w)"
  using is_user_exists_frame[of D u w]
  by (auto simp: validate_run split: prod.splits sum.splits)

lemma mismatch_message:
  "(''Passwords do not match'' \<in> set (failed (checks_in_order u ok))) = (pass1 u \<noteq> pass2 u)"
  by (auto simp: in_failed checks_in_order_def is_pwd_match_def)

lemma exists_message:
  "(''User already exists'' \<in> set (failed (checks_in_order u ok))) = (\<not> ok)"
  by (auto simp: in_failed checks_in_order_def)

lemma length_message:
  "(''Password must be 8-16 characters long'' \<in> set (failed (checks_in_order u ok)))
     = (length (pass1 u) < 8 \<or> 16 < length (pass1 u))"
  by (auto simp: in_failed checks_in_order_def is_pwd_valid_def)

lemma save_user_rejected:
  assumes "RegisterVal_validate D u w = (Inr errs, w1)" and "errs \<noteq> []"
  shows "save_user D H u w =
           (Inr \<lparr>status = False, msg = Some (Messages errs)\<rparr>,
            w\<lparr>calls := calls w @ store_queries u @ store_queries u\<rparr>)"
proof -
  from validate_Inr[OF assms(1)] obtain ok where
    ok: "is_user_exists D u w = (Inr ok, w1)" and errs: "errs = failed (checks_in_order u ok)"
    by blast
  have w1: "w1 = w\<lparr>calls := calls w @ store_queries u\<rparr>"
    by (rule is_user_exists_Inr(1)[OF ok])
  have "is_user_exists D u w1 = (Inr ok, w1\<lparr>calls := calls w1 @ store_queries u\<rparr>)"
    by (rule is_user_exists_again[OF ok]) (simp add: w1)
  then have second: "RegisterVal_validate D u w1 =
      (Inr errs, w1\<lparr>calls := calls w1 @ store_queries u\<rparr>)"
    by (simp add: validate_run errs)
  show ?thesis
    using assms second
    by (simp add: save_user_def validate_reg_def and_then_def ret_def w1)
qed

lemma save_user_frame:
  assumes "\<And>errs w1. RegisterVal_validate D u w = (Inr errs, w1) \<Longrightarrow> errs \<noteq> []"
  shows "db (snd (save_user D H u w)) = db w \<and>
         inserts (calls (snd (save_user D H u w))) = inserts (calls w)"
proof (cases "RegisterVal_validate D u w")
  case (Pair res w1)
  show ?thesis
  proof (cases res)
    case (Inl e)
    with Pair validate_frame[of D u w] show ?thesis
      by (simp add: save_user_def validate_reg_def and_then_def)
  next
    case (Inr errs)
    with Pair assms have "errs \<noteq> []" by blast
    from save_user_rejected[OF Pair[unfolded Inr] this, of H] show ?thesis
      by (simp add: inserts_append inserts_store_queries)
  qed
qed

lemmas login_defs = auth_user_def auth_user_body_def validate_login_def LoginVal_validate_def
  verify_pwd_def and_then_def ret_def lift_def fetch_call_def truthy_def Let_def

lemma validate_login_status:
  "status (validate_login em pwd) = (em \<noteq> [] \<and> pwd \<noteq> [] \<and> LoginVal_is_email_valid em)"
  by (simp add: validate_login_def LoginVal_validate_def Let_def)




section \<open>Properties\<close>

text \<open>
  C1. \<open>is_email_valid\<close> at inputs where the pattern departs from the shape
  \<open>localpart@domain.tld\<close>: a hyphen between two alphanumeric runs of the local part is
  rejected, since the class \<open>[.-_]\<close> is the range from \<open>.\<close> to \<open>_\<close>, which has no hyphen; the
  same range lets \<open>/\<close> and \<open>@\<close> through as separators, and the class \<open>[A-Z|a-z]\<close> lets \<open>|\<close>
  into the last label.
\<close>

theorem is_email_valid_slips:
  "LoginVal_is_email_valid ''a-b@c.com'' = False
   \<and> RegisterVal_is_email_valid (u\<lparr>email := ''a-b@c.com''\<rparr>) = False
   \<and> LoginVal_is_email_valid ''a/b@c.com'' = True
   \<and> LoginVal_is_email_valid ''a@b@c.com'' = True
   \<and> LoginVal_is_email_valid ''a@b.c|'' = True"
proof -
  have "fullmatch email_regex ''a-b@c.com'' = False" by code_simp
  moreover have "fullmatch email_regex ''a/b@c.com'' = True" by code_simp
  moreover have "fullmatch email_regex ''a@b@c.com'' = True" by code_simp
  moreover have "fullmatch email_regex ''a@b.c|'' = True" by code_simp
  ultimately show ?thesis
    by (simp add: LoginVal_is_email_valid_def RegisterVal_is_email_valid_def
             del: fullmatch.simps)
qed

text \<open>
  C2. What the two operations raise when a collaborator raises: \<open>save_user\<close> raises the
  exception of the store, and of the hasher, as it is; \<open>auth_user\<close> raises it wrapped in
  \<open>AppException\<close>.
\<close>

theorem save_user_raises_unwrapped:
  "fst (save_user failing_db toy_ctx alice \<lparr>db = (), calls = []\<rparr>)
     = Inl (Exception ''store unavailable'')
   \<and> fst (save_user list_db failing_ctx alice world0) = Inl (Exception ''hash failed'')
   \<and> fst (auth_user failing_db toy_ctx ''a@b.com'' ''password1'' \<lparr>db = (), calls = []\<rparr>)
     = Inl (AppException (Exception ''store unavailable''))"
proof -
  have v: "LoginVal_is_email_valid ''a@b.com''"
    by (simp add: LoginVal_is_email_valid_def alice_email del: fullmatch.simps)
  have 1: "fst (save_user failing_db toy_ctx alice \<lparr>db = (), calls = []\<rparr>)
     = Inl (Exception ''store unavailable'')"
    by (simp add: run_defs failing_db_def alice_email del: fullmatch.simps)
  have 2: "fst (save_user list_db failing_ctx alice world0) = Inl (Exception ''hash failed'')"
    by (simp add: run_defs failing_ctx_def alice_email del: fullmatch.simps)
  have 3: "fst (auth_user failing_db toy_ctx ''a@b.com'' ''password1'' \<lparr>db = (), calls = []\<rparr>)
     = Inl (AppException (Exception ''store unavailable''))"
    using v by (simp add: login_defs failing_db_def)
  from 1 2 3 show ?thesis by simp
qed

text \<open>
  C3. When registration validation fails, \<open>save_user\<close> returns status false with the
  messages collected, and the world it leaves has the same store and only the six
  uniqueness queries added to the calls: \<open>add_user\<close> is not called. With \<open>pass1\<close> different
  from \<open>pass2\<close> the message list has ``Passwords do not match'' whenever the store answers
  the queries, and no document is inserted even when the store raises.
\<close>

theorem save_user_rejects_without_insert:
  "(RegisterVal_validate D u w = (Inr errs, w1) \<and> errs \<noteq> [] \<longrightarrow>
      save_user D H u w =
        (Inr \<lparr>status = False, msg = Some (Messages errs)\<rparr>,
         w\<lparr>calls := calls w @ store_queries u @ store_queries u\<rparr>))
   \<and> (pass1 u \<noteq> pass2 u \<and> is_user_exists D u w = (Inr ok, w2) \<longrightarrow>
        (\<exists>errs. ''Passwords do not match'' \<in> set errs \<and>
           save_user D H u w =
             (Inr \<lparr>status = False, msg = Some (Messages errs)\<rparr>,
              w\<lparr>calls := calls w @ store_queries u @ store_queries u\<rparr>)))
   \<and> (pass1 u \<noteq> pass2 u \<longrightarrow>
        db (snd (save_user D H u w)) = db w \<and>
        inserts (calls (snd (save_user D H u w))) = inserts (calls w))"
  (is "?A \<and> ?B \<and> ?C")
proof -
  have A: ?A
    using save_user_rejected by blast
  have B: ?B
  proof
    assume a: "pass1 u \<noteq> pass2 u \<and> is_user_exists D u w = (Inr ok, w2)"
    let ?errs = "failed (checks_in_order u ok)"
    from a have v: "RegisterVal_validate D u w = (Inr ?errs, w2)"
      by (simp add: validate_run)
    from a have m: "''Passwords do not match'' \<in> set ?errs"
      by (simp add: mismatch_message)
    then have "?errs \<noteq> []" by auto
    from save_user_rejected[OF v this, of H] m
    show "\<exists>errs. ''Passwords do not match'' \<in> set errs \<and>
             save_user D H u w =
               (Inr \<lparr>status = False, msg = Some (Messages errs)\<rparr>,
                w\<lparr>calls := calls w @ store_queries u @ store_queries u\<rparr>)"
      by blast
  qed
  have C: ?C
  proof
    assume a: "pass1 u \<noteq> pass2 u"
    have ne: "errs \<noteq> []" if "RegisterVal_validate D u w = (Inr errs, w1)" for errs w1
    proof -
      from validate_Inr[OF that] obtain ok where "errs = failed (checks_in_order u ok)" by blast
      with a mismatch_message[of u ok] show ?thesis by auto
    qed
    show "db (snd (save_user D H u w)) = db w \<and>
          inserts (calls (snd (save_user D H u w))) = inserts (calls w)"
      by (rule save_user_frame) (erule ne)
  qed
  from A B C show ?thesis by blast
qed

theorem save_user_rejects_without_insert_witness:
  "RegisterVal_validate list_db (alice\<lparr>pass2 := ''password2''\<rparr>) world0
     = (Inr [''Passwords do not match''], world0\<lparr>calls := store_queries alice\<rparr>)
   \<and> [''Passwords do not match''] \<noteq> ([] :: string list)
   \<and> pass1 (alice\<lparr>pass2 := ''password2''\<rparr>) \<noteq> pass2 (alice\<lparr>pass2 := ''password2''\<rparr>)
   \<and> is_user_exists list_db (alice\<lparr>pass2 := ''password2''\<rparr>) world0
        = (Inr True, world0\<lparr>calls := store_queries alice\<rparr>)
   \<and> save_user list_db toy_ctx (alice\<lparr>pass2 := ''password2''\<rparr>) world0
        = (Inr \<lparr>status = False, msg = Some (Messages [''Passwords do not match''])\<rparr>,
           world0\<lparr>calls := store_queries alice @ store_queries alice\<rparr>)
   \<and> db (snd (save_user list_db toy_ctx (alice\<lparr>pass2 := ''password2''\<rparr>) world0)) = []
   \<and> inserts (calls (snd (save_user list_db toy_ctx (alice\<lparr>pass2 := ''password2''\<rparr>) world0))) = []"
proof -
  let ?u = "alice\<lparr>pass2 := ''password2''\<rparr>"
  have v: "RegisterVal_validate list_db ?u world0
     = (Inr [''Passwords do not match''], world0\<lparr>calls := store_queries alice\<rparr>)"
    by (simp add: run_defs alice_email del: fullmatch.simps)
  have x: "is_user_exists list_db ?u world0
        = (Inr True, world0\<lparr>calls := store_queries alice\<rparr>)"
    by (simp add: run_defs)
  have p: "pass1 ?u \<noteq> pass2 ?u"
    by (simp add: alice_def)
  from save_user_rejects_without_insert[of list_db ?u world0 "[''Passwords do not match'']"
          "world0\<lparr>calls := store_queries alice\<rparr>" toy_ctx True "world0\<lparr>calls := store_queries alice\<rparr>"]
       v x p
  show ?thesis
    by (simp add: world0_def store_queries_def alice_def inserts_def)
qed

text \<open>
  C4. When the three uniqueness queries are answered and one of them returns a document,
  \<open>save_user\<close> returns status false with ``User already exists'' among its messages,
  leaving the store as it was. As soon as one of the three queries returns a document, no
  document is inserted, whatever the other queries do.
\<close>

theorem save_user_existing_user:
  "(fetch_user D (db w) (''username'', username u) = Inr r1
      \<and> fetch_user D (db w) (''email'', email u) = Inr r2
      \<and> fetch_user D (db w) (''UUID'', uid u) = Inr r3
      \<and> (truthy r1 \<or> truthy r2 \<or> truthy r3) \<longrightarrow>
        (\<exists>errs. ''User already exists'' \<in> set errs \<and>
           save_user D H u w =
             (Inr \<lparr>status = False, msg = Some (Messages errs)\<rparr>,
              w\<lparr>calls := calls w @ store_queries u @ store_queries u\<rparr>)))
   \<and> (Fetch q \<in> set (store_queries u) \<and> fetch_user D (db w) q = Inr r \<and> truthy r \<longrightarrow>
        db (snd (save_user D H u w)) = db w \<and>
        inserts (calls (snd (save_user D H u w))) = inserts (calls w))"
  (is "?A \<and> ?B")
proof -
  have A: ?A
  proof
    assume a: "fetch_user D (db w) (''username'', username u) = Inr r1
      \<and> fetch_user D (db w) (''email'', email u) = Inr r2
      \<and> fetch_user D (db w) (''UUID'', uid u) = Inr r3
      \<and> (truthy r1 \<or> truthy r2 \<or> truthy r3)"
    let ?errs = "failed (checks_in_order u False)"
    from a have "is_user_exists D u w = (Inr False, w\<lparr>calls := calls w @ store_queries u\<rparr>)"
      by (simp add: is_user_exists_fetches)
    then have v: "RegisterVal_validate D u w =
        (Inr ?errs, w\<lparr>calls := calls w @ store_queries u\<rparr>)"
      by (simp add: validate_run)
    have m: "''User already exists'' \<in> set ?errs"
      by (simp add: exists_message)
    then have "?errs \<noteq> []" by auto
    from save_user_rejected[OF v this, of H] m
    show "\<exists>errs. ''User already exists'' \<in> set errs \<and>
           save_user D H u w =
             (Inr \<lparr>status = False, msg = Some (Messages errs)\<rparr>,
              w\<lparr>calls := calls w @ store_queries u @ store_queries u\<rparr>)"
      by blast
  qed
  have B: ?B
  proof
    assume a: "Fetch q \<in> set (store_queries u) \<and> fetch_user D (db w) q = Inr r \<and> truthy r"
    have ne: "errs \<noteq> []" if "RegisterVal_validate D u w = (Inr errs, w1)" for errs w1
    proof -
      from validate_Inr[OF that] obtain ok where
        ok: "is_user_exists D u w = (Inr ok, w1)" and errs: "errs = failed (checks_in_order u ok)"
        by blast
      from is_user_exists_Inr(2)[OF ok] a have "\<not> ok"
        by (auto simp: store_queries_def)
      with errs exists_message[of u ok] show ?thesis by auto
    qed
    show "db (snd (save_user D H u w)) = db w \<and>
          inserts (calls (snd (save_user D H u w))) = inserts (calls w)"
      by (rule save_user_frame) (erule ne)
  qed
  from A B show ?thesis by blast
qed

theorem save_user_existing_user_witness:
  "fetch_user list_db (db world1) (''username'', username alice) = Inr (Some alice_doc)
   \<and> fetch_user list_db (db world1) (''email'', email alice) = Inr (Some alice_doc)
   \<and> fetch_user list_db (db world1) (''UUID'', uid alice) = Inr (Some alice_doc)
   \<and> truthy (Some alice_doc)
   \<and> Fetch (''username'', ''alice'') \<in> set (store_queries alice)
   \<and> save_user list_db toy_ctx alice world1 =
        (Inr \<lparr>status = False, msg = Some (Messages [''User already exists''])\<rparr>,
         world1\<lparr>calls := store_queries alice @ store_queries alice\<rparr>)
   \<and> db (snd (save_user list_db toy_ctx alice world1)) = [alice_doc]
   \<and> inserts (calls (snd (save_user list_db toy_ctx alice world1))) = []"
proof -
  have f: "fetch_user list_db (db world1) (''username'', username alice) = Inr (Some alice_doc)"
     "fetch_user list_db (db world1) (''email'', email alice) = Inr (Some alice_doc)"
     "fetch_user list_db (db world1) (''UUID'', uid alice) = Inr (Some alice_doc)"
     "truthy (Some alice_doc)"
     "Fetch (''username'', ''alice'') \<in> set (store_queries alice)"
    by (simp_all add: run_defs)
  have s: "save_user list_db toy_ctx alice world1 =
        (Inr \<lparr>status = False, msg = Some (Messages [''User already exists''])\<rparr>,
         world1\<lparr>calls := store_queries alice @ store_queries alice\<rparr>)"
    by (simp add: run_defs alice_email del: fullmatch.simps)
  from save_user_existing_user[of list_db world1 alice "Some alice_doc" "Some alice_doc" "Some alice_doc"
             toy_ctx "(''username'', ''alice'')" "Some alice_doc"] f s
  show ?thesis
    by (simp add: world1_def inserts_def store_queries_def)
qed




text \<open>
  C6. \<open>auth_user\<close> returns \<open>False\<close>, without a call on the store, when the email or the
  password is empty or the email does not match the pattern. Otherwise it fetches by
  email once, and returns \<open>False\<close> when the fetch returns nothing (or an empty document),
  \<open>False\<close> when the hasher does not verify the password against the document's password
  field, and the document when it does.
\<close>

theorem auth_user_outcomes:
  "(em = [] \<or> pwd = [] \<or> \<not> LoginVal_is_email_valid em \<longrightarrow>
      auth_user D H em pwd w = (Inr AuthFalse, w))
   \<and> (em \<noteq> [] \<and> pwd \<noteq> [] \<and> LoginVal_is_email_valid em \<longrightarrow>
       (fetch_user D (db w) (''email'', em) = Inr r \<and> \<not> truthy r \<longrightarrow>
          auth_user D H em pwd w =
            (Inr AuthFalse, w\<lparr>calls := calls w @ [Fetch (''email'', em)]\<rparr>))
     \<and> (fetch_user D (db w) (''email'', em) = Inr (Some ud)
          \<and> map_of ud ''password'' = Some hashed \<and> verify H pwd hashed = Inr False \<longrightarrow>
          auth_user D H em pwd w =
            (Inr AuthFalse, w\<lparr>calls := calls w @ [Fetch (''email'', em)]\<rparr>))
     \<and> (fetch_user D (db w) (''email'', em) = Inr (Some ud)
          \<and> map_of ud ''password'' = Some hashed \<and> verify H pwd hashed = Inr True \<longrightarrow>
          auth_user D H em pwd w =
            (Inr (AuthUser ud), w\<lparr>calls := calls w @ [Fetch (''email'', em)]\<rparr>)))"
  (is "?A \<and> ?B")
proof -
  have A: ?A
    using validate_login_status[of em pwd]
    by (auto simp: auth_user_def auth_user_body_def ret_def Let_def)
  have B: ?B
  proof
    assume "em \<noteq> [] \<and> pwd \<noteq> [] \<and> LoginVal_is_email_valid em"
    then have st: "status (validate_login em pwd)"
      by (simp add: validate_login_status)
    have ne: "ud \<noteq> []" if "map_of ud ''password'' = Some hashed"
      using that by auto
    show "(fetch_user D (db w) (''email'', em) = Inr r \<and> \<not> truthy r \<longrightarrow>
          auth_user D H em pwd w =
            (Inr AuthFalse, w\<lparr>calls := calls w @ [Fetch (''email'', em)]\<rparr>))
     \<and> (fetch_user D (db w) (''email'', em) = Inr (Some ud)
          \<and> map_of ud ''password'' = Some hashed \<and> verify H pwd hashed = Inr False \<longrightarrow>
          auth_user D H em pwd w =
            (Inr AuthFalse, w\<lparr>calls := calls w @ [Fetch (''email'', em)]\<rparr>))
     \<and> (fetch_user D (db w) (''email'', em) = Inr (Some ud)
          \<and> map_of ud ''password'' = Some hashed \<and> verify H pwd hashed = Inr True \<longrightarrow>
          auth_user D H em pwd w =
            (Inr (AuthUser ud), w\<lparr>calls := calls w @ [Fetch (''email'', em)]\<rparr>))"
      using st ne
      by (auto simp: auth_user_def auth_user_body_def verify_pwd_def and_then_def ret_def
            lift_def fetch_call_def truthy_def Let_def split: option.splits)
  qed
  from A B show ?thesis by blast
qed

theorem auth_user_outcomes_witness:
  "auth_user list_db toy_ctx ''a@b.com'' [] world1 = (Inr AuthFalse, world1)
   \<and> (''a@b.com'' \<noteq> [] \<and> ''password1'' \<noteq> [] \<and> LoginVal_is_email_valid ''a@b.com'')
   \<and> fetch_user list_db (db world0) (''email'', ''a@b.com'') = Inr None
   \<and> \<not> truthy None
   \<and> auth_user list_db toy_ctx ''a@b.com'' ''password1'' world0 =
        (Inr AuthFalse, world0\<lparr>calls := [Fetch (''email'', ''a@b.com'')]\<rparr>)
   \<and> fetch_user list_db (db world1) (''email'', ''a@b.com'') = Inr (Some alice_doc)
   \<and> map_of alice_doc ''password'' = Some ''$2b$12$saltsaltsalt$password1''
   \<and> verify toy_ctx ''wrongpass'' ''$2b$12$saltsaltsalt$password1'' = Inr False
   \<and> auth_user list_db toy_ctx ''a@b.com'' ''wrongpass'' world1 =
        (Inr AuthFalse, world1\<lparr>calls := [Fetch (''email'', ''a@b.com'')]\<rparr>)
   \<and> verify toy_ctx ''password1'' ''$2b$12$saltsaltsalt$password1'' = Inr True
   \<and> auth_user list_db toy_ctx ''a@b.com'' ''password1'' world1 =
        (Inr (AuthUser alice_doc), world1\<lparr>calls := [Fetch (''email'', ''a@b.com'')]\<rparr>)"
proof -
  have v: "LoginVal_is_email_valid ''a@b.com''"
    by (simp add: LoginVal_is_email_valid_def alice_email del: fullmatch.simps)
  have f: "fetch_user list_db (db world0) (''email'', ''a@b.com'') = Inr None"
    "\<not> truthy None"
    "fetch_user list_db (db world1) (''email'', ''a@b.com'') = Inr (Some alice_doc)"
    "map_of alice_doc ''password'' = Some ''$2b$12$saltsaltsalt$password1''"
    "verify toy_ctx ''wrongpass'' ''$2b$12$saltsaltsalt$password1'' = Inr False"
    "verify toy_ctx ''password1'' ''$2b$12$saltsaltsalt$password1'' = Inr True"
    by (simp_all add: run_defs)
  from auth_user_outcomes[of "''a@b.com''" "[]" list_db toy_ctx world1]
  have 1: "auth_user list_db toy_ctx ''a@b.com'' [] world1 = (Inr AuthFalse, world1)"
    by simp
  from auth_user_outcomes[of "''a@b.com''" "''password1''" list_db toy_ctx world0 None] v f
  have 2: "auth_user list_db toy_ctx ''a@b.com'' ''password1'' world0 =
        (Inr AuthFalse, world0\<lparr>calls := [Fetch (''email'', ''a@b.com'')]\<rparr>)"
    by (simp add: world0_def)
  from auth_user_outcomes[of "''a@b.com''" "''wrongpass''" list_db toy_ctx world1 _ alice_doc
             "''$2b$12$saltsaltsalt$password1''"] v f
  have 3: "auth_user list_db toy_ctx ''a@b.com'' ''wrongpass'' world1 =
        (Inr AuthFalse, world1\<lparr>calls := [Fetch (''email'', ''a@b.com'')]\<rparr>)"
    by (simp add: world1_def)
  from auth_user_outcomes[of "''a@b.com''" "''password1''" list_db toy_ctx world1 _ alice_doc
             "''$2b$12$saltsaltsalt$password1''"] v f
  have 4: "auth_user list_db toy_ctx ''a@b.com'' ''password1'' world1 =
        (Inr (AuthUser alice_doc), world1\<lparr>calls := [Fetch (''email'', ''a@b.com'')]\<rparr>)"
    by (simp add: world1_def)
  from v f 1 2 3 4 show ?thesis by simp
qed

text \<open>
  C7. \<open>RegisterVal.validate\<close> evaluates every check and returns the messages of exactly
  the failed ones, in the order: name, username, email, phone, pass1, pass2 present, email
  format, password length, confirmation, uniqueness. The uniqueness check is the one that
  can raise; then the validation raises the same exception.
\<close>

theorem validate_messages_in_order:
  "RegisterVal_validate D u w =
     (case is_user_exists D u w of
        (Inl e, w1) \<Rightarrow> (Inl e, w1)
      | (Inr unique, w1) \<Rightarrow> (Inr (failed (checks_in_order u unique)), w1))"
  by (rule validate_run)

text \<open>
  C8. The password-length check passes exactly when \<open>pass1\<close> has between 8 and 16
  characters; a validation that returns has the length message among its messages exactly
  when the length is below 8 or above 16; and then \<open>save_user\<close> returns status false with
  that message, provided the store answers the uniqueness queries.
\<close>

theorem password_length_check:
  "is_pwd_valid u = (8 \<le> length (pass1 u) \<and> length (pass1 u) \<le> 16)
   \<and> (RegisterVal_validate D u w = (Inr errs, w1) \<longrightarrow>
        (''Password must be 8-16 characters long'' \<in> set errs)
          = (length (pass1 u) < 8 \<or> 16 < length (pass1 u)))
   \<and> ((length (pass1 u) < 8 \<or> 16 < length (pass1 u))
        \<and> is_user_exists D u w = (Inr ok, w2) \<longrightarrow>
        (\<exists>errs. ''Password must be 8-16 characters long'' \<in> set errs \<and>
           save_user D H u w =
             (Inr \<lparr>status = False, msg = Some (Messages errs)\<rparr>,
              w\<lparr>calls := calls w @ store_queries u @ store_queries u\<rparr>)))"
  (is "?A \<and> ?B \<and> ?C")
proof -
  have A: ?A by (simp add: is_pwd_valid_def)
  have B: ?B
  proof
    assume "RegisterVal_validate D u w = (Inr errs, w1)"
    from validate_Inr[OF this] obtain ok where "errs = failed (checks_in_order u ok)" by blast
    then show "(''Password must be 8-16 characters long'' \<in> set errs)
          = (length (pass1 u) < 8 \<or> 16 < length (pass1 u))"
      by (simp only: length_message)
  qed
  have C: ?C
  proof
    assume a: "(length (pass1 u) < 8 \<or> 16 < length (pass1 u))
        \<and> is_user_exists D u w = (Inr ok, w2)"
    let ?errs = "failed (checks_in_order u ok)"
    from a have v: "RegisterVal_validate D u w = (Inr ?errs, w2)"
      by (simp add: validate_run)
    from a have m: "''Password must be 8-16 characters long'' \<in> set ?errs"
      by (simp only: length_message)
    then have "?errs \<noteq> []" by auto
    from save_user_rejected[OF v this, of H] m
    show "\<exists>errs. ''Password must be 8-16 characters long'' \<in> set errs \<and>
           save_user D H u w =
             (Inr \<lparr>status = False, msg = Some (Messages errs)\<rparr>,
              w\<lparr>calls := calls w @ store_queries u @ store_queries u\<rparr>)"
      by blast
  qed
  from A B C show ?thesis by blast
qed

theorem password_length_check_witness:
  "RegisterVal_validate list_db (alice\<lparr>pass1 := ''short'', pass2 := ''short''\<rparr>) world0
     = (Inr [''Password must be 8-16 characters long''], world0\<lparr>calls := store_queries alice\<rparr>)
   \<and> length (pass1 (alice\<lparr>pass1 := ''short'', pass2 := ''short''\<rparr>)) < 8
   \<and> is_user_exists list_db (alice\<lparr>pass1 := ''short'', pass2 := ''short''\<rparr>) world0
        = (Inr True, world0\<lparr>calls := store_queries alice\<rparr>)
   \<and> ''Password must be 8-16 characters long'' \<in> set [''Password must be 8-16 characters long'']
   \<and> save_user list_db toy_ctx (alice\<lparr>pass1 := ''short'', pass2 := ''short''\<rparr>) world0
        = (Inr \<lparr>status = False,
                msg = Some (Messages [''Password must be 8-16 characters long''])\<rparr>,
           world0\<lparr>calls := store_queries alice @ store_queries alice\<rparr>)"
proof -
  let ?u = "alice\<lparr>pass1 := ''short'', pass2 := ''short''\<rparr>"
  have v: "RegisterVal_validate list_db ?u world0
     = (Inr [''Password must be 8-16 characters long''], world0\<lparr>calls := store_queries alice\<rparr>)"
    by (simp add: run_defs alice_email del: fullmatch.simps)
  have x: "is_user_exists list_db ?u world0 = (Inr True, world0\<lparr>calls := store_queries alice\<rparr>)"
    by (simp add: run_defs)
  have p: "length (pass1 ?u) < 8"
    by (simp add: alice_def)
  have s: "save_user list_db toy_ctx ?u world0
        = (Inr \<lparr>status = False,
                msg = Some (Messages [''Password must be 8-16 characters long''])\<rparr>,
           world0\<lparr>calls := store_queries alice @ store_queries alice\<rparr>)"
    by (simp add: run_defs alice_email del: fullmatch.simps)
  from password_length_check[of ?u list_db world0 "[''Password must be 8-16 characters long'']"
          "world0\<lparr>calls := store_queries alice\<rparr>" True "world0\<lparr>calls := store_queries alice\<rparr>" toy_ctx]
       v x p s
  show ?thesis
    by (simp add: world0_def store_queries_def alice_def)
qed

text \<open>
  C9. The empty string does not match the email pattern, so \<open>LoginVal.validate\<close> on an
  empty email returns both ``Email is required'' and ``Invalid Email'', with ``Password is
  required'' between them when the password is empty too.
\<close>

theorem login_empty_email_messages:
  "LoginVal_is_email_valid [] = False
   \<and> LoginVal_validate [] pwd =
       [''Email is required''] @ (if pwd = [] then [''Password is required''] else [])
         @ [''Invalid Email'']
   \<and> ''Email is required'' \<in> set (LoginVal_validate [] pwd)
   \<and> ''Invalid Email'' \<in> set (LoginVal_validate [] pwd)"
proof -
  have e: "LoginVal_is_email_valid [] = False"
    by (simp add: LoginVal_is_email_valid_def email_regex_def Plus_def)
  then show ?thesis
    by (simp add: LoginVal_validate_def Let_def)
qed

text \<open>
  C10. When validation fails, \<open>save_user\<close> validates twice: the first run leaves the world
  with the three uniqueness queries added and the store as it was, the result of
  \<open>save_user\<close> is built from the run of the validation in that world, that second run returns
  the messages of the first and adds the three queries again.
\<close>

theorem save_user_validates_twice:
  assumes "RegisterVal_validate D u w = (Inr errs, w1)" and "errs \<noteq> []"
  shows "w1 = w\<lparr>calls := calls w @ store_queries u\<rparr>
       \<and> db w1 = db w
       \<and> save_user D H u w =
           (case RegisterVal_validate D u w1 of
              (Inl e, w2) \<Rightarrow> (Inl e, w2)
            | (Inr errs2, w2) \<Rightarrow> (Inr \<lparr>status = False, msg = Some (Messages errs2)\<rparr>, w2))
       \<and> RegisterVal_validate D u w1 = (Inr errs, w1\<lparr>calls := calls w1 @ store_queries u\<rparr>)
       \<and> save_user D H u w =
           (Inr \<lparr>status = False, msg = Some (Messages errs)\<rparr>,
            w\<lparr>calls := calls w @ store_queries u @ store_queries u\<rparr>)"
proof -
  from validate_Inr[OF assms(1)] obtain ok where
    ok: "is_user_exists D u w = (Inr ok, w1)" and errs: "errs = failed (checks_in_order u ok)"
    by blast
  have w1: "w1 = w\<lparr>calls := calls w @ store_queries u\<rparr>"
    by (rule is_user_exists_Inr(1)[OF ok])
  then have same: "db w1 = db w" by simp
  have "is_user_exists D u w1 = (Inr ok, w1\<lparr>calls := calls w1 @ store_queries u\<rparr>)"
    by (rule is_user_exists_again[OF ok same])
  then have second: "RegisterVal_validate D u w1 =
      (Inr errs, w1\<lparr>calls := calls w1 @ store_queries u\<rparr>)"
    by (simp add: validate_run errs)
  have twice: "save_user D H u w =
           (case RegisterVal_validate D u w1 of
              (Inl e, w2) \<Rightarrow> (Inl e, w2)
            | (Inr errs2, w2) \<Rightarrow> (Inr \<lparr>status = False, msg = Some (Messages errs2)\<rparr>, w2))"
    using assms
    by (simp add: save_user_def validate_reg_def and_then_def ret_def split: prod.splits sum.splits)
  from w1 same twice second save_user_rejected[OF assms, of H] show ?thesis
    by blast
qed

theorem save_user_validates_twice_witness:
  "RegisterVal_validate list_db alice world1
      = (Inr [''User already exists''], world1\<lparr>calls := store_queries alice\<rparr>)
   \<and> [''User already exists''] \<noteq> ([] :: string list)
   \<and> RegisterVal_validate list_db alice (world1\<lparr>calls := store_queries alice\<rparr>)
      = (Inr [''User already exists''],
         world1\<lparr>calls := store_queries alice @ store_queries alice\<rparr>)
   \<and> save_user list_db toy_ctx alice world1 =
        (Inr \<lparr>status = False, msg = Some (Messages [''User already exists''])\<rparr>,
         world1\<lparr>calls := store_queries alice @ store_queries alice\<rparr>)"
proof -
  have v: "RegisterVal_validate list_db alice world1
      = (Inr [''User already exists''], world1\<lparr>calls := store_queries alice\<rparr>)"
    by (simp add: run_defs alice_email del: fullmatch.simps)
  from save_user_validates_twice[OF v, of toy_ctx] v show ?thesis
    by (simp add: world1_def)
qed

end
